theory Spec2Isabelle
  imports Main "HOL-Library.Sublist" "HOL-Library.List_Lexorder" "HOL-Library.Char_ord"
begin

section \<open>The background indexer of Lookyloo (bin/background\_indexer.py)\<close>

text \<open>
  The daemon's pass \<^verbatim>\<open>_to_run_forever\<close> first reconciles the capture store
  (\<^verbatim>\<open>_build_missing_pickles\<close>) and then, when the backlog is drained, checks the
  secondary indexes (\<^verbatim>\<open>_check_indexes\<close>). Both work on a file system and on two
  Redis databases; the model threads them through every function as one record.
\<close>

subsection \<open>Data model\<close>

text \<open>
  A path is the list of its components (\<^verbatim>\<open>Path.parts\<close>), so that Python's order on
  paths is the lexicographic order on lists of strings, \<^verbatim>\<open>p.parent\<close> is
  \<open>butlast p\<close> and \<^verbatim>\<open>p / name\<close> is \<open>p @ [name]\<close>.
\<close>

type_synonym path = "string list"

text \<open>
  A capture directory is a directory that holds a file \<^verbatim>\<open>uuid\<close>. The record keeps
  the content of that file and the relative names of all other files below the
  directory. Capture directories are leaves of the store: none lies inside another.
\<close>

record capture_directory =
  uuid_file :: string
  files :: "string list"

text \<open>The exceptions the source distinguishes; every other one is \<open>OtherException\<close>.\<close>

datatype exn = MissingUUID | NoValidHarFile | OtherException

text \<open>The calls to the external collaborators, in the order they are made.\<close>

datatype event =
    GetCrawledTree string
  | TriggerModules string
  | RemovePickle string
  | IndexUrlCapture string
  | IndexBodyHashesCapture string
  | IndexCookiesCapture string
  | IndexHttpHeadersHashesCapture string
  | UpdateTreeCacheInfo

text \<open>An entry of \<^verbatim>\<open>sorted_capture_cache\<close>: the two fields the indexer reads.\<close>

record capture_cache =
  uuid :: string
  no_index :: bool

text \<open>
  The state: the capture directories on disk (\<open>fs\<close>), the directories moved to
  \<^verbatim>\<open>discarded_captures\<close> with their destination path, any other existing path,
  the Redis hash \<^verbatim>\<open>lookup_dirs\<close>, the key \<^verbatim>\<open>ongoing_indexing\<close> of the
  indexing database with its remaining time to live, the four sets of indexed
  captures, and the trace of external calls.
\<close>

record sys_state =
  fs :: "(path \<times> capture_directory) list"
  discarded :: "(path \<times> capture_directory) list"
  other_paths :: "path list"
  lookup_dirs :: "string \<rightharpoonup> path"
  ongoing_indexing :: "nat option"
  indexed_urls :: "string set"
  indexed_body_hashes :: "string set"
  indexed_cookies :: "string set"
  indexed_hhhashes :: "string set"
  trace :: "event list"

text \<open>
  What the source takes from the rest of Lookyloo and is not in this file: the root
  of the capture store, the public-instance switch, the activity probe
  \<^verbatim>\<open>is_locked\<close>, the outcome of \<^verbatim>\<open>get_crawled_tree\<close> and of
  \<^verbatim>\<open>trigger_modules\<close> (\<open>None\<close>: the call returns), and the capture catalogue.
\<close>

record env =
  capture_dir :: path
  is_public_instance :: bool
  is_locked :: "path \<Rightarrow> bool"
  tree_outcome :: "sys_state \<Rightarrow> string \<Rightarrow> exn option"
  modules_outcome :: "sys_state \<Rightarrow> string \<Rightarrow> exn option"
  sorted_capture_cache :: "sys_state \<Rightarrow> capture_cache list"

subsection \<open>The file system\<close>

definition parent :: "path \<Rightarrow> path" where
  "parent p = butlast p"

definition name :: "path \<Rightarrow> string" where
  "name p = (if p = [] then [] else last p)"

text \<open>\<^verbatim>\<open>self.lookyloo.capture_dir.parent / 'discarded_captures'\<close>\<close>

definition discarded_captures_dir :: "env \<Rightarrow> path" where
  "discarded_captures_dir E = parent (capture_dir E) @ [''discarded_captures'']"

text \<open>\<^verbatim>\<open>sorted(self.lookyloo.capture_dir.glob('**/uuid'), reverse=True)\<close>\<close>

definition glob_uuid :: "env \<Rightarrow> sys_state \<Rightarrow> path list" where
  "glob_uuid E s =
     rev (sort (map (\<lambda>d. d @ [''uuid''])
                    (filter (prefix (capture_dir E)) (map fst (fs s)))))"

text \<open>
  \<^verbatim>\<open>(d / 'tree.pickle.gz').exists() or (d / 'tree.pickle').exists()\<close>; a directory
  that is not there has no file.
\<close>

definition pickle_in :: "capture_directory \<Rightarrow> bool" where
  "pickle_in c = (''tree.pickle.gz'' \<in> set (files c) \<or> ''tree.pickle'' \<in> set (files c))"

definition has_pickle :: "sys_state \<Rightarrow> path \<Rightarrow> bool" where
  "has_pickle s d = (case map_of (fs s) d of None \<Rightarrow> False | Some c \<Rightarrow> pickle_in c)"

text \<open>\<^verbatim>\<open>list(d.rglob('*' + ext))\<close>: the files below \<open>d\<close> whose name ends in \<open>ext\<close>.\<close>

definition rglob :: "sys_state \<Rightarrow> path \<Rightarrow> string \<Rightarrow> string list" where
  "rglob s d ext = (case map_of (fs s) d of None \<Rightarrow> [] | Some c \<Rightarrow> filter (suffix ext) (files c))"

text \<open>\<^verbatim>\<open>with uuid_path.open() as f: uuid = f.read()\<close>\<close>

definition read_uuid :: "sys_state \<Rightarrow> path \<Rightarrow> string" where
  "read_uuid s uuid_path =
     (case map_of (fs s) (parent uuid_path) of None \<Rightarrow> [] | Some c \<Rightarrow> uuid_file c)"

text \<open>
  \<^verbatim>\<open>Path.exists\<close>: a path exists when it is, or lies above, a directory of the
  model.
\<close>

definition path_exists :: "env \<Rightarrow> sys_state \<Rightarrow> path \<Rightarrow> bool" where
  "path_exists E s p =
     list_ex (prefix p)
       (capture_dir E # discarded_captures_dir E #
        map fst (fs s) @ map fst (discarded s) @ other_paths s)"

text \<open>
  \<^verbatim>\<open>shutil.move(str(src), str(dst))\<close>: the directory leaves the store and is kept
  under its destination. What \<^verbatim>\<open>shutil.move\<close> does when the destination is taken
  is outside the model.
\<close>

definition shutil_move :: "path \<Rightarrow> path \<Rightarrow> sys_state \<Rightarrow> sys_state" where
  "shutil_move src dst s =
     s\<lparr>fs := filter (\<lambda>(p, c). p \<noteq> src) (fs s),
       discarded := discarded s @ map (\<lambda>(p, c). (dst, c)) (filter (\<lambda>(p, c). p = src) (fs s))\<rparr>"

subsection \<open>The hash \<^verbatim>\<open>lookup_dirs\<close>\<close>

definition hexists :: "sys_state \<Rightarrow> string \<Rightarrow> bool" where
  "hexists s u = (lookup_dirs s u \<noteq> None)"

definition hset :: "string \<Rightarrow> path \<Rightarrow> sys_state \<Rightarrow> sys_state" where
  "hset u p s = s\<lparr>lookup_dirs := (lookup_dirs s)(u \<mapsto> p)\<rparr>"

definition hdel :: "string \<Rightarrow> sys_state \<Rightarrow> sys_state" where
  "hdel u s = s\<lparr>lookup_dirs := (lookup_dirs s)(u := None)\<rparr>"

subsection \<open>The external collaborators\<close>

definition log_call :: "event \<Rightarrow> sys_state \<Rightarrow> sys_state" where
  "log_call e s = s\<lparr>trace := trace s @ [e]\<rparr>"

text \<open>
  Modelled from the spec: the effect of \<^verbatim>\<open>Lookyloo.get_crawled_tree\<close> on the store,
  which is not in this file. A successful call leaves the cached artifact in the
  directory registered for the UUID; a failing call changes nothing.
\<close>

definition store_pickle :: "string \<Rightarrow> sys_state \<Rightarrow> sys_state" where
  "store_pickle u s =
     (case lookup_dirs s u of
        None \<Rightarrow> s
      | Some d \<Rightarrow>
          s\<lparr>fs := map (\<lambda>(p, c). if p = d \<and> \<not> pickle_in c
                                   then (p, c\<lparr>files := ''tree.pickle.gz'' # files c\<rparr>)
                                   else (p, c)) (fs s)\<rparr>)"

definition get_crawled_tree :: "env \<Rightarrow> string \<Rightarrow> sys_state \<Rightarrow> sys_state \<times> exn option" where
  "get_crawled_tree E u s =
     (case tree_outcome E s u of
        None \<Rightarrow> (store_pickle u (log_call (GetCrawledTree u) s), None)
      | Some x \<Rightarrow> (log_call (GetCrawledTree u) s, Some x))"

text \<open>
  Modelled from the spec: \<^verbatim>\<open>Lookyloo.trigger_modules\<close>, the post-build enrichment,
  changes nothing the indexer reads.
\<close>

definition trigger_modules :: "env \<Rightarrow> string \<Rightarrow> sys_state \<Rightarrow> sys_state \<times> exn option" where
  "trigger_modules E u s = (log_call (TriggerModules u) s, modules_outcome E s u)"

text \<open>
  Modelled from the spec: \<^verbatim>\<open>Lookyloo.remove_pickle\<close> deletes the cached artifact of
  the capture and nothing else.
\<close>

definition remove_pickle :: "string \<Rightarrow> sys_state \<Rightarrow> sys_state" where
  "remove_pickle u s =
     (case lookup_dirs s u of
        None \<Rightarrow> log_call (RemovePickle u) s
      | Some d \<Rightarrow>
          (log_call (RemovePickle u) s)
            \<lparr>fs := map (\<lambda>(p, c). if p = d
                     then (p, c\<lparr>files := filter (\<lambda>f. f \<noteq> ''tree.pickle.gz'' \<and> f \<noteq> ''tree.pickle'')
                                                 (files c)\<rparr>)
                     else (p, c)) (fs s)\<rparr>)"

text \<open>
  Modelled from the spec: each index build of \<^verbatim>\<open>lookyloo.indexing\<close> sets the flag of
  its index for the capture.
\<close>

definition index_url_capture :: "string \<Rightarrow> sys_state \<Rightarrow> sys_state" where
  "index_url_capture u s =
     (log_call (IndexUrlCapture u) s)\<lparr>indexed_urls := insert u (indexed_urls s)\<rparr>"

definition index_body_hashes_capture :: "string \<Rightarrow> sys_state \<Rightarrow> sys_state" where
  "index_body_hashes_capture u s =
     (log_call (IndexBodyHashesCapture u) s)\<lparr>indexed_body_hashes := insert u (indexed_body_hashes s)\<rparr>"

definition index_cookies_capture :: "string \<Rightarrow> sys_state \<Rightarrow> sys_state" where
  "index_cookies_capture u s =
     (log_call (IndexCookiesCapture u) s)\<lparr>indexed_cookies := insert u (indexed_cookies s)\<rparr>"

definition index_http_headers_hashes_capture :: "string \<Rightarrow> sys_state \<Rightarrow> sys_state" where
  "index_http_headers_hashes_capture u s =
     (log_call (IndexHttpHeadersHashesCapture u) s)\<lparr>indexed_hhhashes := insert u (indexed_hhhashes s)\<rparr>"

definition update_tree_cache_info :: "sys_state \<Rightarrow> sys_state" where
  "update_tree_cache_info s = log_call UpdateTreeCacheInfo s"

subsection \<open>\<^verbatim>\<open>_build_missing_pickles\<close>\<close>

text \<open>
  Lines 60 to 74: the entry of \<^verbatim>\<open>lookup_dirs\<close> for the UUID read at \<open>d\<close>. The
  result is \<open>False\<close> where the source says \<^verbatim>\<open>continue\<close>.
\<close>

definition resolve_lookup_dir :: "env \<Rightarrow> string \<Rightarrow> path \<Rightarrow> sys_state \<Rightarrow> sys_state \<times> bool" where
  "resolve_lookup_dir E u d s =
     (if \<not> hexists s u then (hset u d s, True)
      else (case lookup_dirs s u of
              None \<Rightarrow> (s, True)
            | Some cached_path \<Rightarrow>
                if cached_path \<noteq> d then
                  if path_exists E s cached_path
                  then (shutil_move d (discarded_captures_dir E @ [name d]) s, False)
                  else (hset u d s, True)
                else (s, True)))"

text \<open>The body of the \<^verbatim>\<open>try\<close> of lines 76 to 80.\<close>

definition try_build :: "env \<Rightarrow> string \<Rightarrow> sys_state \<Rightarrow> sys_state \<times> exn option" where
  "try_build E u s =
     (case get_crawled_tree E u s of
        (s1, Some x) \<Rightarrow> (s1, Some x)
      | (s1, None) \<Rightarrow> trigger_modules E u s1)"

text \<open>Lines 76 to 89: the \<^verbatim>\<open>try\<close> with its three handlers.\<close>

definition build_pickle :: "env \<Rightarrow> string \<Rightarrow> path \<Rightarrow> sys_state \<Rightarrow> sys_state" where
  "build_pickle E u d s =
     (case try_build E u s of
        (s1, None) \<Rightarrow> s1
      | (s1, Some MissingUUID) \<Rightarrow> s1
      | (s1, Some NoValidHarFile) \<Rightarrow> s1
      | (s1, Some OtherException) \<Rightarrow>
          shutil_move d (discarded_captures_dir E @ [name d]) (hdel u s1))"

text \<open>
  One iteration of the loop of lines 41 to 91 on \<open>uuid_path\<close>, with the current
  \<open>max_captures\<close>: the new state, the new \<open>max_captures\<close>, and whether the loop
  is left by \<^verbatim>\<open>break\<close>.
\<close>

definition loop_body :: "env \<Rightarrow> path \<Rightarrow> int \<Rightarrow> sys_state \<Rightarrow> sys_state \<times> int \<times> bool" where
  "loop_body E uuid_path max_captures s =
     (if has_pickle s (parent uuid_path) then (s, max_captures, False)
      else if rglob s (parent uuid_path) ''.har.gz'' = [] \<and> rglob s (parent uuid_path) ''.har'' = []
      then (s, max_captures, False)
      else if is_locked E (parent uuid_path) then (s, max_captures, False)
      else
        (case resolve_lookup_dir E (read_uuid s uuid_path) (parent uuid_path) s of
           (s1, False) \<Rightarrow> (s1, max_captures - 1, False)
         | (s1, True) \<Rightarrow>
             (build_pickle E (read_uuid s uuid_path) (parent uuid_path) s1,
              max_captures - 1, max_captures - 1 \<le> 0)))"

text \<open>
  The \<^verbatim>\<open>for\<close> loop over the sorted paths: the state and \<open>max_captures\<close> when it
  ends, and whether it ended because the list ran out (\<open>True\<close>, the \<^verbatim>\<open>else\<close> branch)
  or by \<^verbatim>\<open>break\<close> (\<open>False\<close>).
\<close>

fun pickles_loop :: "env \<Rightarrow> path list \<Rightarrow> int \<Rightarrow> sys_state \<Rightarrow> sys_state \<times> int \<times> bool" where
  "pickles_loop E [] max_captures s = (s, max_captures, True)"
| "pickles_loop E (uuid_path # rest) max_captures s =
     (case loop_body E uuid_path max_captures s of
        (s1, m, True) \<Rightarrow> (s1, m, False)
      | (s1, m, False) \<Rightarrow> pickles_loop E rest m s1)"

definition build_missing_pickles :: "env \<Rightarrow> sys_state \<Rightarrow> sys_state \<times> bool" where
  "build_missing_pickles E s =
     (case pickles_loop E (glob_uuid E s) 50 s of (s1, m, all_done) \<Rightarrow> (s1, all_done))"

subsection \<open>\<^verbatim>\<open>_check_indexes\<close>\<close>

text \<open>
  \<^verbatim>\<open>index_redis.set('ongoing_indexing', 1, ex=300, nx=True)\<close>: Redis sets the key
  only when it is absent, with 300 seconds to live, and says whether it did.
\<close>

definition acquire :: "sys_state \<Rightarrow> sys_state \<times> bool" where
  "acquire s =
     (case ongoing_indexing s of
        None \<Rightarrow> (s\<lparr>ongoing_indexing := Some 300\<rparr>, True)
      | Some ttl \<Rightarrow> (s, False))"

text \<open>\<^verbatim>\<open>index_redis.delete('ongoing_indexing')\<close>\<close>

definition release :: "sys_state \<Rightarrow> sys_state" where
  "release s = s\<lparr>ongoing_indexing := None\<rparr>"

text \<open>The pipeline of four \<^verbatim>\<open>sismember\<close>, executed at once.\<close>

definition pipeline_execute :: "sys_state \<Rightarrow> string \<Rightarrow> bool list" where
  "pipeline_execute s u =
     [u \<in> indexed_urls s, u \<in> indexed_body_hashes s, u \<in> indexed_cookies s, u \<in> indexed_hhhashes s]"

text \<open>Lines 125 to 136: the four conditional index builds.\<close>

definition build_indexes :: "bool list \<Rightarrow> string \<Rightarrow> sys_state \<Rightarrow> sys_state" where
  "build_indexes indexed u s =
     (let s1 = (if \<not> indexed ! 0 then index_url_capture u s else s);
          s2 = (if \<not> indexed ! 1 then index_body_hashes_capture u s1 else s1);
          s3 = (if \<not> indexed ! 2 then index_cookies_capture u s2 else s2)
      in if \<not> indexed ! 3 then index_http_headers_hashes_capture u s3 else s3)"

text \<open>
  One iteration of the loop of lines 106 to 136; \<open>Some x\<close> when the exception \<open>x\<close>
  leaves the loop.
\<close>

definition index_capture :: "env \<Rightarrow> capture_cache \<Rightarrow> sys_state \<Rightarrow> sys_state \<times> exn option" where
  "index_capture E cache s =
     (if is_public_instance E \<and> no_index cache then (s, None)
      else if list_all (\<lambda>b. b) (pipeline_execute s (uuid cache)) then (s, None)
      else
        (case get_crawled_tree E (uuid cache) s of
           (s1, Some NoValidHarFile) \<Rightarrow> (remove_pickle (uuid cache) s1, None)
         | (s1, Some MissingUUID) \<Rightarrow> (s1, Some MissingUUID)
         | (s1, Some OtherException) \<Rightarrow> (s1, Some OtherException)
         | (s1, None) \<Rightarrow> (build_indexes (pipeline_execute s (uuid cache)) (uuid cache) s1, None)))"

fun indexes_loop :: "env \<Rightarrow> capture_cache list \<Rightarrow> sys_state \<Rightarrow> sys_state \<times> exn option" where
  "indexes_loop E [] s = (s, None)"
| "indexes_loop E (cache # rest) s =
     (case index_capture E cache s of
        (s1, Some x) \<Rightarrow> (s1, Some x)
      | (s1, None) \<Rightarrow> indexes_loop E rest s1)"

definition check_indexes :: "env \<Rightarrow> sys_state \<Rightarrow> sys_state \<times> exn option" where
  "check_indexes E s =
     (case acquire s of
        (s0, False) \<Rightarrow> (s0, None)
      | (s0, True) \<Rightarrow>
          (case indexes_loop E (sorted_capture_cache E s0) s0 of
             (s1, Some x) \<Rightarrow> (s1, Some x)
           | (s1, None) \<Rightarrow> (release s1, None)))"

subsection \<open>\<^verbatim>\<open>_to_run_forever\<close>\<close>

definition to_run_forever :: "env \<Rightarrow> sys_state \<Rightarrow> sys_state \<times> exn option" where
  "to_run_forever E s =
     (case build_missing_pickles E s of
        (s1, all_done) \<Rightarrow>
          (case (if all_done then check_indexes E s1 else (s1, None)) of
             (s2, Some x) \<Rightarrow> (s2, Some x)
           | (s2, None) \<Rightarrow> (update_tree_cache_info s2, None)))"

subsection \<open>Observations and a small deployment\<close>

text \<open>The build attempts of a pass are its calls of \<^verbatim>\<open>get_crawled_tree\<close>.\<close>

fun is_build :: "event \<Rightarrow> bool" where
  "is_build (GetCrawledTree u) = True"
| "is_build e = False"

definition build_attempts :: "sys_state \<Rightarrow> nat" where
  "build_attempts s = length (filter is_build (trace s))"

text \<open>
  A small deployment: two directories with the same UUID, the registered one already
  built; nothing locked, every build succeeds.
\<close>

definition example_env :: env where
  "example_env =
     \<lparr>capture_dir = [''scraped''], is_public_instance = False, is_locked = (\<lambda>d. False),
      tree_outcome = (\<lambda>s u. None), modules_outcome = (\<lambda>s u. None),
      sorted_capture_cache = (\<lambda>s. [\<lparr>uuid = ''u1'', no_index = False\<rparr>])\<rparr>"

definition example_state :: sys_state where
  "example_state =
     \<lparr>fs = [([''scraped'', ''b''], \<lparr>uuid_file = ''u1'', files = [''0.har'']\<rparr>),
            ([''scraped'', ''a''], \<lparr>uuid_file = ''u1'', files = [''0.har'', ''tree.pickle'']\<rparr>)],
      discarded = [], other_paths = [],
      lookup_dirs = [''u1'' \<mapsto> [''scraped'', ''a'']],
      ongoing_indexing = None,
      indexed_urls = {}, indexed_body_hashes = {}, indexed_cookies = {}, indexed_hhhashes = {},
      trace = []\<rparr>"

text \<open>The calls of the four index builds, and the four index sets at once.\<close>

fun is_index_build :: "event \<Rightarrow> bool" where
  "is_index_build (IndexUrlCapture u) = True"
| "is_index_build (IndexBodyHashesCapture u) = True"
| "is_index_build (IndexCookiesCapture u) = True"
| "is_index_build (IndexHttpHeadersHashesCapture u) = True"
| "is_index_build e = False"

definition index_builds :: "sys_state \<Rightarrow> event list" where
  "index_builds s = filter is_index_build (trace s)"

definition index_flags :: "sys_state \<Rightarrow> string set \<times> string set \<times> string set \<times> string set" where
  "index_flags s = (indexed_urls s, indexed_body_hashes s, indexed_cookies s, indexed_hhhashes s)"

text \<open>The small deployment with a tree builder that always fails, and with the lease taken.\<close>

definition failing_env :: "exn \<Rightarrow> env" where
  "failing_env x = example_env\<lparr>tree_outcome := (\<lambda>s u. Some x)\<rparr>"

definition held_state :: sys_state where
  "held_state = example_state\<lparr>ongoing_indexing := Some 120\<rparr>"

text \<open>The index builds that go with the flags that are not set, in the order of the source.\<close>

definition missing_index_builds :: "bool list \<Rightarrow> string \<Rightarrow> event list" where
  "missing_index_builds indexed u =
     map snd (filter (\<lambda>(done, e). \<not> done)
       (zip indexed [IndexUrlCapture u, IndexBodyHashesCapture u, IndexCookiesCapture u,
                     IndexHttpHeadersHashesCapture u]))"

text \<open>
  The data model of the specification: a capture is reconcilable when it has raw source
  data (a HAR file) and no cached artifact (pickle).
\<close>

definition has_source :: "sys_state \<Rightarrow> path \<Rightarrow> bool" where
  "has_source s d = (\<not> (rglob s d ''.har.gz'' = [] \<and> rglob s d ''.har'' = []))"

definition reconcilable :: "sys_state \<Rightarrow> path \<Rightarrow> bool" where
  "reconcilable s d = (has_source s d \<and> \<not> has_pickle s d)"












definition backlog_state :: "(path \<times> capture_directory) list \<Rightarrow> sys_state" where
  "backlog_state xs =
     \<lparr>fs = xs, discarded = [], other_paths = [[''elsewhere'']],
      lookup_dirs = [''shared'' \<mapsto> [''elsewhere'']],
      ongoing_indexing = None,
      indexed_urls = {}, indexed_body_hashes = {}, indexed_cookies = {}, indexed_hhhashes = {},
      trace = []\<rparr>"






section \<open>Properties\<close>

subsection \<open>Duplicate UUIDs\<close>







subsection \<open>What the collaborators leave unchanged\<close>

lemma store_pickle_frame [simp]:
  "discarded (store_pickle u s) = discarded s"
  "other_paths (store_pickle u s) = other_paths s"
  "lookup_dirs (store_pickle u s) = lookup_dirs s"
  "ongoing_indexing (store_pickle u s) = ongoing_indexing s"
  "index_flags (store_pickle u s) = index_flags s"
  "trace (store_pickle u s) = trace s"
  by (simp_all add: store_pickle_def index_flags_def split: option.splits)

lemma log_call_frame [simp]:
  "fs (log_call e s) = fs s"
  "discarded (log_call e s) = discarded s"
  "other_paths (log_call e s) = other_paths s"
  "lookup_dirs (log_call e s) = lookup_dirs s"
  "ongoing_indexing (log_call e s) = ongoing_indexing s"
  "index_flags (log_call e s) = index_flags s"
  "trace (log_call e s) = trace s @ [e]"
  by (simp_all add: log_call_def index_flags_def)

lemma get_crawled_tree_frame:
  "discarded (fst (get_crawled_tree E u s)) = discarded s"
  "other_paths (fst (get_crawled_tree E u s)) = other_paths s"
  "lookup_dirs (fst (get_crawled_tree E u s)) = lookup_dirs s"
  "ongoing_indexing (fst (get_crawled_tree E u s)) = ongoing_indexing s"
  "index_flags (fst (get_crawled_tree E u s)) = index_flags s"
  "trace (fst (get_crawled_tree E u s)) = trace s @ [GetCrawledTree u]"
  by (simp_all add: get_crawled_tree_def split: option.splits)

lemma try_build_frame:
  "discarded (fst (try_build E u s)) = discarded s"
  "other_paths (fst (try_build E u s)) = other_paths s"
  "lookup_dirs (fst (try_build E u s)) = lookup_dirs s"
  "ongoing_indexing (fst (try_build E u s)) = ongoing_indexing s"
  "index_flags (fst (try_build E u s)) = index_flags s"
  "index_builds (fst (try_build E u s)) = index_builds s"
  using get_crawled_tree_frame [of E u s]
  by (cases "get_crawled_tree E u s"; cases "snd (get_crawled_tree E u s)";
      simp add: try_build_def trigger_modules_def index_builds_def)+

subsection \<open>Failure of a build\<close>



subsection \<open>The index lease\<close>

text \<open>
  C9. \<open>acquire\<close> on an absent key installs it with 300 seconds to live and answers
  \<open>True\<close>, and a second \<open>acquire\<close> right after it answers \<open>False\<close>; on a present key
  it answers \<open>False\<close> and changes nothing. \<open>release\<close> deletes the key whatever it holds.
\<close>

theorem lease_semantics:
  "(ongoing_indexing s = None \<longrightarrow>
      acquire s = (s\<lparr>ongoing_indexing := Some 300\<rparr>, True)
    \<and> snd (acquire (fst (acquire s))) = False)
 \<and> (\<forall>ttl. ongoing_indexing s = Some ttl \<longrightarrow> acquire s = (s, False))
 \<and> release s = s\<lparr>ongoing_indexing := None\<rparr>
 \<and> ongoing_indexing (release s) = None"
  by (simp add: acquire_def release_def)

theorem lease_semantics_witness:
  "ongoing_indexing example_state = None
   \<and> acquire example_state = (example_state\<lparr>ongoing_indexing := Some 300\<rparr>, True)
   \<and> snd (acquire (fst (acquire example_state))) = False
   \<and> ongoing_indexing held_state = Some 120
   \<and> acquire held_state = (held_state, False)
   \<and> ongoing_indexing (release held_state) = None"
proof -
  have a: "ongoing_indexing example_state = None" "ongoing_indexing held_state = Some 120"
    by (simp_all add: example_state_def held_state_def)
  show ?thesis
    using lease_semantics [of example_state] lease_semantics [of held_state] a by blast
qed

subsection \<open>The gate before indexing\<close>

lemma shutil_move_frame [simp]:
  "other_paths (shutil_move a b s) = other_paths s"
  "lookup_dirs (shutil_move a b s) = lookup_dirs s"
  "ongoing_indexing (shutil_move a b s) = ongoing_indexing s"
  "index_flags (shutil_move a b s) = index_flags s"
  "trace (shutil_move a b s) = trace s"
  by (simp_all add: shutil_move_def index_flags_def)

lemma hset_frame [simp]:
  "fs (hset u p s) = fs s"
  "discarded (hset u p s) = discarded s"
  "other_paths (hset u p s) = other_paths s"
  "ongoing_indexing (hset u p s) = ongoing_indexing s"
  "index_flags (hset u p s) = index_flags s"
  "trace (hset u p s) = trace s"
  by (simp_all add: hset_def index_flags_def)

lemma hdel_frame [simp]:
  "fs (hdel u s) = fs s"
  "discarded (hdel u s) = discarded s"
  "other_paths (hdel u s) = other_paths s"
  "ongoing_indexing (hdel u s) = ongoing_indexing s"
  "index_flags (hdel u s) = index_flags s"
  "trace (hdel u s) = trace s"
  by (simp_all add: hdel_def index_flags_def)

lemma index_builds_trace: "trace s' = trace s \<Longrightarrow> index_builds s' = index_builds s"
  by (simp add: index_builds_def)

lemma resolve_lookup_dir_index:
  "ongoing_indexing (fst (resolve_lookup_dir E u d s)) = ongoing_indexing s"
  "index_flags (fst (resolve_lookup_dir E u d s)) = index_flags s"
  "index_builds (fst (resolve_lookup_dir E u d s)) = index_builds s"
  by (simp_all add: resolve_lookup_dir_def index_builds_def split: option.splits)

lemma build_pickle_index:
  "ongoing_indexing (build_pickle E u d s) = ongoing_indexing s"
  "index_flags (build_pickle E u d s) = index_flags s"
  "index_builds (build_pickle E u d s) = index_builds s"
  using try_build_frame(4,5,6) [of E u s]
  by (cases "try_build E u s"; simp add: build_pickle_def index_builds_def split: option.splits exn.splits)+

lemma loop_body_index:
  "ongoing_indexing (fst (loop_body E c m s)) = ongoing_indexing s"
  "index_flags (fst (loop_body E c m s)) = index_flags s"
  "index_builds (fst (loop_body E c m s)) = index_builds s"
  using resolve_lookup_dir_index [of E "read_uuid s c" "parent c" s]
  by (cases "resolve_lookup_dir E (read_uuid s c) (parent c) s";
      simp add: loop_body_def build_pickle_index split: bool.splits)+

lemma pickles_loop_index:
  "ongoing_indexing (fst (pickles_loop E cs m s)) = ongoing_indexing s
   \<and> index_flags (fst (pickles_loop E cs m s)) = index_flags s
   \<and> index_builds (fst (pickles_loop E cs m s)) = index_builds s"
proof (induction cs arbitrary: m s)
  case Nil
  show ?case by simp
next
  case (Cons c cs)
  obtain s1 m1 b where step: "loop_body E c m s = (s1, m1, b)"
    by (cases "loop_body E c m s") auto
  with loop_body_index [of E c m s]
  have "ongoing_indexing s1 = ongoing_indexing s" "index_flags s1 = index_flags s"
    "index_builds s1 = index_builds s"
    by simp_all
  with Cons [of m1 s1] step show ?case
    by (cases b) simp_all
qed

lemma build_missing_pickles_index:
  "ongoing_indexing (fst (build_missing_pickles E s)) = ongoing_indexing s"
  "index_flags (fst (build_missing_pickles E s)) = index_flags s"
  "index_builds (fst (build_missing_pickles E s)) = index_builds s"
  using pickles_loop_index [of E "glob_uuid E s" 50 s]
  by (cases "pickles_loop E (glob_uuid E s) 50 s"; simp add: build_missing_pickles_def)+

text \<open>
  C5. Unless \<^verbatim>\<open>_build_missing_pickles\<close> returned \<open>True\<close> and the lease was acquired, a
  pass of \<^verbatim>\<open>_to_run_forever\<close> only adds the heartbeat to what the reconciliation left:
  the four index sets are those the pass started with and no index build was called.
  When the lease is not acquired, \<^verbatim>\<open>_check_indexes\<close> returns the state unchanged.
\<close>

theorem indexing_gate:
  "(\<not> (snd (build_missing_pickles E s) \<and> snd (acquire (fst (build_missing_pickles E s)))) \<longrightarrow>
       to_run_forever E s = (update_tree_cache_info (fst (build_missing_pickles E s)), None)
     \<and> index_flags (fst (to_run_forever E s)) = index_flags s
     \<and> index_builds (fst (to_run_forever E s)) = index_builds s)
   \<and> (\<not> snd (acquire t) \<longrightarrow> check_indexes E t = (t, None))"
proof -
  have held: "check_indexes E t = (t, None)" if "\<not> snd (acquire t)" for t
    using that by (auto simp: check_indexes_def acquire_def split: option.splits)
  obtain s1 all_done where pass: "build_missing_pickles E s = (s1, all_done)"
    by (cases "build_missing_pickles E s") auto
  have same: "index_flags s1 = index_flags s" "index_builds s1 = index_builds s"
    using build_missing_pickles_index(2,3) [of E s] pass by simp_all
  have "to_run_forever E s = (update_tree_cache_info s1, None)"
    if "\<not> (all_done \<and> snd (acquire s1))"
    using that pass held [of s1] by (auto simp: to_run_forever_def)
  moreover have "index_flags (update_tree_cache_info s1) = index_flags s"
    "index_builds (update_tree_cache_info s1) = index_builds s"
    using same by (simp_all add: update_tree_cache_info_def index_builds_def)
  ultimately show ?thesis
    using pass held by auto
qed

theorem indexing_gate_witness:
  "\<not> snd (acquire (fst (build_missing_pickles example_env held_state)))
   \<and> to_run_forever example_env held_state
       = (update_tree_cache_info (fst (build_missing_pickles example_env held_state)), None)
   \<and> index_flags (fst (to_run_forever example_env held_state)) = index_flags held_state
   \<and> check_indexes example_env held_state = (held_state, None)"
proof -
  have a: "\<not> snd (acquire held_state)"
    by (simp add: acquire_def held_state_def)
  have b: "\<not> snd (acquire (fst (build_missing_pickles example_env held_state)))"
    using build_missing_pickles_index(1) [of example_env held_state]
    by (simp add: acquire_def held_state_def split: option.splits)
  show ?thesis
    using indexing_gate [of example_env held_state held_state] a b by blast
qed

subsection \<open>Release of the lease\<close>

lemma remove_pickle_frame [simp]:
  "discarded (remove_pickle u s) = discarded s"
  "other_paths (remove_pickle u s) = other_paths s"
  "lookup_dirs (remove_pickle u s) = lookup_dirs s"
  "ongoing_indexing (remove_pickle u s) = ongoing_indexing s"
  "index_flags (remove_pickle u s) = index_flags s"
  "trace (remove_pickle u s) = trace s @ [RemovePickle u]"
  by (simp_all add: remove_pickle_def index_flags_def log_call_def split: option.splits)

lemma build_indexes_lease [simp]:
  "ongoing_indexing (build_indexes f u s) = ongoing_indexing s"
  by (simp add: build_indexes_def Let_def index_url_capture_def index_body_hashes_capture_def
      index_cookies_capture_def index_http_headers_hashes_capture_def log_call_def)










subsection \<open>Which indexes are built\<close>

lemma build_indexes_trace:
  "trace (build_indexes [a, b, c, d] u s) = trace s @ missing_index_builds [a, b, c, d] u"
  by (simp add: build_indexes_def missing_index_builds_def Let_def index_url_capture_def
      index_body_hashes_capture_def index_cookies_capture_def
      index_http_headers_hashes_capture_def log_call_def)

text \<open>
  C7, as amended. For a capture that is not left out as non-indexable, the four flags
  are read once, in the state the iteration starts with. When all four are set the
  state is unchanged. Otherwise, when \<^verbatim>\<open>get_crawled_tree\<close> returns, the calls made are
  \<^verbatim>\<open>get_crawled_tree\<close> and then exactly the index builds whose flag was not set, in the
  order URLs, body hashes, cookies, header hashes.
\<close>

theorem index_selectivity:
  assumes "\<not> (is_public_instance E \<and> no_index cache)"
  shows "(list_all (\<lambda>b. b) (pipeline_execute s (uuid cache)) \<longrightarrow>
            index_capture E cache s = (s, None))
       \<and> (\<not> list_all (\<lambda>b. b) (pipeline_execute s (uuid cache))
            \<and> tree_outcome E s (uuid cache) = None \<longrightarrow>
            snd (index_capture E cache s) = None
          \<and> trace (fst (index_capture E cache s)) =
              trace s @ GetCrawledTree (uuid cache)
                # missing_index_builds (pipeline_execute s (uuid cache)) (uuid cache))"
proof -
  have skip: "index_capture E cache s = (s, None)"
    if "list_all (\<lambda>b. b) (pipeline_execute s (uuid cache))"
    using that assms by (auto simp add: index_capture_def)
  have build: "index_capture E cache s =
      (build_indexes (pipeline_execute s (uuid cache)) (uuid cache)
         (store_pickle (uuid cache) (log_call (GetCrawledTree (uuid cache)) s)), None)"
    if "\<not> list_all (\<lambda>b. b) (pipeline_execute s (uuid cache))" "tree_outcome E s (uuid cache) = None"
    using that assms by (auto simp add: index_capture_def get_crawled_tree_def)
  have "trace (build_indexes (pipeline_execute s (uuid cache)) (uuid cache)
         (store_pickle (uuid cache) (log_call (GetCrawledTree (uuid cache)) s)))
       = trace s @ GetCrawledTree (uuid cache)
           # missing_index_builds (pipeline_execute s (uuid cache)) (uuid cache)"
    unfolding pipeline_execute_def by (simp only: build_indexes_trace) simp
  with skip build show ?thesis by simp
qed

theorem index_selectivity_witness:
  "list_all (\<lambda>b. b) (pipeline_execute (example_state\<lparr>indexed_urls := {''u1''},
       indexed_body_hashes := {''u1''}, indexed_cookies := {''u1''}, indexed_hhhashes := {''u1''}\<rparr>) ''u1'')
   \<and> index_capture example_env \<lparr>uuid = ''u1'', no_index = False\<rparr>
        (example_state\<lparr>indexed_urls := {''u1''},
          indexed_body_hashes := {''u1''}, indexed_cookies := {''u1''}, indexed_hhhashes := {''u1''}\<rparr>)
       = (example_state\<lparr>indexed_urls := {''u1''},
          indexed_body_hashes := {''u1''}, indexed_cookies := {''u1''}, indexed_hhhashes := {''u1''}\<rparr>, None)
   \<and> trace (fst (index_capture example_env \<lparr>uuid = ''u1'', no_index = False\<rparr>
        (example_state\<lparr>indexed_body_hashes := {''u1''}\<rparr>)))
       = [GetCrawledTree ''u1'', IndexUrlCapture ''u1'', IndexCookiesCapture ''u1'',
          IndexHttpHeadersHashesCapture ''u1'']"
proof -
  let ?c = "\<lparr>uuid = ''u1'', no_index = False\<rparr>"
  let ?full = "example_state\<lparr>indexed_urls := {''u1''},
       indexed_body_hashes := {''u1''}, indexed_cookies := {''u1''}, indexed_hhhashes := {''u1''}\<rparr>"
  let ?part = "example_state\<lparr>indexed_body_hashes := {''u1''}\<rparr>"
  have a: "\<not> (is_public_instance example_env \<and> no_index ?c)"
    by (simp add: example_env_def)
  have b: "list_all (\<lambda>b. b) (pipeline_execute ?full (uuid ?c))"
    by (simp add: pipeline_execute_def)
  have c: "\<not> list_all (\<lambda>b. b) (pipeline_execute ?part (uuid ?c))"
    "tree_outcome example_env ?part (uuid ?c) = None"
    "trace ?part @ GetCrawledTree (uuid ?c) # missing_index_builds (pipeline_execute ?part (uuid ?c)) (uuid ?c)
      = [GetCrawledTree ''u1'', IndexUrlCapture ''u1'', IndexCookiesCapture ''u1'',
          IndexHttpHeadersHashesCapture ''u1'']"
    by (simp_all add: pipeline_execute_def example_env_def example_state_def missing_index_builds_def)
  have d: "uuid ?c = ''u1''" by simp
  show ?thesis
    using index_selectivity [OF a, of ?full] index_selectivity [OF a, of ?part] b c
    unfolding d by metis
qed

text \<open>
  C7 as stated fails: with no flag set and \<^verbatim>\<open>get_crawled_tree\<close> raising
  \<^verbatim>\<open>NoValidHarFile\<close>, no index build is called.
\<close>

theorem index_selectivity_counterexample:
  "pipeline_execute example_state ''u1'' = [False, False, False, False]
   \<and> index_builds (fst (index_capture (failing_env NoValidHarFile)
        \<lparr>uuid = ''u1'', no_index = False\<rparr> example_state)) = []
   \<and> snd (index_capture (failing_env NoValidHarFile)
        \<lparr>uuid = ''u1'', no_index = False\<rparr> example_state) = None"
  by (simp add: failing_env_def example_env_def example_state_def
      index_capture_def pipeline_execute_def get_crawled_tree_def log_call_def
      remove_pickle_def index_builds_def)

subsection \<open>A malformed artifact\<close>

lemma map_of_update_entry:
  "map_of (map (\<lambda>(p, c). if p = d then (p, f c) else (p, c)) xs) k =
     (if k = d then map_option f (map_of xs k) else map_of xs k)"
  by (induction xs) auto

lemma keys_update_entry:
  "map fst (map (\<lambda>(p, c). if p = d then (p, f c) else (p, c)) xs) = map fst xs"
  by (induction xs) auto

lemma no_har_pickle:
  "filter (suffix ''.har'') (filter (\<lambda>f. f \<noteq> ''tree.pickle.gz'' \<and> f \<noteq> ''tree.pickle'') xs)
     = filter (suffix ''.har'') xs"
  "filter (suffix ''.har.gz'') (filter (\<lambda>f. f \<noteq> ''tree.pickle.gz'' \<and> f \<noteq> ''tree.pickle'') xs)
     = filter (suffix ''.har.gz'') xs"
proof -
  have "\<not> suffix ''.har'' ''tree.pickle.gz''" "\<not> suffix ''.har'' ''tree.pickle''"
    "\<not> suffix ''.har.gz'' ''tree.pickle.gz''" "\<not> suffix ''.har.gz'' ''tree.pickle''"
    by (simp_all add: suffix_to_prefix)
  then show "filter (suffix ''.har'') (filter (\<lambda>f. f \<noteq> ''tree.pickle.gz'' \<and> f \<noteq> ''tree.pickle'') xs)
     = filter (suffix ''.har'') xs"
    "filter (suffix ''.har.gz'') (filter (\<lambda>f. f \<noteq> ''tree.pickle.gz'' \<and> f \<noteq> ''tree.pickle'') xs)
     = filter (suffix ''.har.gz'') xs"
    by (induction xs) auto
qed

lemma remove_pickle_entry:
  assumes "lookup_dirs s u = Some d"
  shows "map_of (fs (remove_pickle u s)) k =
     (if k = d
      then map_option (\<lambda>c. c\<lparr>files := filter (\<lambda>f. f \<noteq> ''tree.pickle.gz'' \<and> f \<noteq> ''tree.pickle'') (files c)\<rparr>)
             (map_of (fs s) k)
      else map_of (fs s) k)"
  using assms by (simp add: remove_pickle_def map_of_update_entry log_call_def)

lemma remove_pickle_keys: "map fst (fs (remove_pickle u s)) = map fst (fs s)"
  by (auto simp add: remove_pickle_def log_call_def split: option.splits)

text \<open>
  C8. When \<^verbatim>\<open>get_crawled_tree\<close> raises \<^verbatim>\<open>NoValidHarFile\<close> for a capture that lacks an
  index, the iteration calls \<^verbatim>\<open>remove_pickle\<close> and goes on to the next capture: nothing
  is discarded, \<^verbatim>\<open>lookup_dirs\<close> and the index sets are unchanged, no index is built, the
  store keeps its directories. The registered directory of the capture has no pickle
  afterwards, so it is reconcilable exactly when it holds a HAR file; the other
  directories are unchanged.
\<close>

theorem malformed_artifact_recovery:
  assumes "\<not> (is_public_instance E \<and> no_index cache)"
    and "\<not> list_all (\<lambda>b. b) (pipeline_execute s (uuid cache))"
    and "tree_outcome E s (uuid cache) = Some NoValidHarFile"
  shows "index_capture E cache s =
           (remove_pickle (uuid cache) (log_call (GetCrawledTree (uuid cache)) s), None)
       \<and> discarded (fst (index_capture E cache s)) = discarded s
       \<and> lookup_dirs (fst (index_capture E cache s)) = lookup_dirs s
       \<and> index_flags (fst (index_capture E cache s)) = index_flags s
       \<and> index_builds (fst (index_capture E cache s)) = index_builds s
       \<and> map fst (fs (fst (index_capture E cache s))) = map fst (fs s)
       \<and> (\<forall>d. lookup_dirs s (uuid cache) = Some d \<longrightarrow>
            \<not> has_pickle (fst (index_capture E cache s)) d
          \<and> (reconcilable (fst (index_capture E cache s)) d \<longleftrightarrow> has_source s d)
          \<and> (\<forall>k. k \<noteq> d \<longrightarrow> map_of (fs (fst (index_capture E cache s))) k = map_of (fs s) k))"
proof -
  let ?u = "uuid cache"
  let ?s1 = "log_call (GetCrawledTree ?u) s"
  have res: "index_capture E cache s = (remove_pickle ?u ?s1, None)"
    using assms by (auto simp add: index_capture_def get_crawled_tree_def)
  have frame: "discarded (remove_pickle ?u ?s1) = discarded s"
    "lookup_dirs (remove_pickle ?u ?s1) = lookup_dirs s"
    "index_flags (remove_pickle ?u ?s1) = index_flags s"
    "index_builds (remove_pickle ?u ?s1) = index_builds s"
    "map fst (fs (remove_pickle ?u ?s1)) = map fst (fs s)"
    by (simp_all add: index_builds_def remove_pickle_keys)
  have entry: "\<not> has_pickle (remove_pickle ?u ?s1) d
      \<and> (reconcilable (remove_pickle ?u ?s1) d \<longleftrightarrow> has_source s d)
      \<and> (\<forall>k. k \<noteq> d \<longrightarrow> map_of (fs (remove_pickle ?u ?s1)) k = map_of (fs s) k)"
    if reg: "lookup_dirs s ?u = Some d" for d
  proof -
    have reg1: "lookup_dirs ?s1 ?u = Some d" using reg by simp
    have np: "\<not> has_pickle (remove_pickle ?u ?s1) d"
      by (cases "map_of (fs s) d")
         (simp_all add: has_pickle_def remove_pickle_entry [OF reg1] pickle_in_def)
    have src: "has_source (remove_pickle ?u ?s1) d \<longleftrightarrow> has_source s d"
      by (cases "map_of (fs s) d")
         (simp_all add: has_source_def rglob_def remove_pickle_entry [OF reg1] no_har_pickle
           del: filter_filter)
    show ?thesis
      using np src by (simp add: reconcilable_def remove_pickle_entry [OF reg1])
  qed
  show ?thesis
    unfolding res using frame entry by simp
qed

theorem malformed_artifact_recovery_witness:
  "has_pickle example_state [''scraped'', ''a'']
   \<and> index_capture (failing_env NoValidHarFile) \<lparr>uuid = ''u1'', no_index = False\<rparr> example_state
       = (remove_pickle ''u1'' (log_call (GetCrawledTree ''u1'') example_state), None)
   \<and> \<not> has_pickle (fst (index_capture (failing_env NoValidHarFile)
           \<lparr>uuid = ''u1'', no_index = False\<rparr> example_state)) [''scraped'', ''a'']
   \<and> reconcilable (fst (index_capture (failing_env NoValidHarFile)
           \<lparr>uuid = ''u1'', no_index = False\<rparr> example_state)) [''scraped'', ''a'']"
proof -
  let ?c = "\<lparr>uuid = ''u1'', no_index = False\<rparr>"
  have a: "\<not> (is_public_instance (failing_env NoValidHarFile) \<and> no_index ?c)"
    and b: "\<not> list_all (\<lambda>b. b) (pipeline_execute example_state (uuid ?c))"
    and c: "tree_outcome (failing_env NoValidHarFile) example_state (uuid ?c) = Some NoValidHarFile"
    by (simp_all add: failing_env_def example_env_def example_state_def pipeline_execute_def)
  have d: "lookup_dirs example_state (uuid ?c) = Some [''scraped'', ''a'']"
    "has_source example_state [''scraped'', ''a'']"
    "has_pickle example_state [''scraped'', ''a'']"
    by (simp_all add: example_state_def has_source_def rglob_def suffix_to_prefix has_pickle_def
        pickle_in_def)
  have e: "uuid ?c = ''u1''" by simp
  show ?thesis
    using malformed_artifact_recovery [OF a b c] d unfolding e by blast
qed

subsection \<open>One iteration of the reconciliation loop\<close>




































subsection \<open>The candidates of a pass\<close>

lemma parent_snoc [simp]: "parent (d @ [x]) = d"
  by (simp add: parent_def)







subsection \<open>Synthetic backlogs\<close>














lemma backlog_attempts [simp]: "build_attempts (backlog_state xs) = 0"
  by (simp add: build_attempts_def backlog_state_def)

lemma backlog_other_paths [simp]: "other_paths (backlog_state xs) = [[''elsewhere'']]"
  by (simp add: backlog_state_def)


subsection \<open>The result of a pass\<close>















subsection \<open>A second pass\<close>

















end
